theory Spec2Isabelle
  imports Main "HOL-Library.Word"
begin

section \<open>ECMAScript strings\<close>

text \<open>
  A JavaScript string is a sequence of UTF-16 code units. The chat page tests its input
  with \<^verbatim>\<open>String.prototype.trim\<close> and cleans spoken text with a regular expression
  that has no \<^verbatim>\<open>u\<close> flag, so both work on code units, and an emoji outside the
  Basic Multilingual Plane counts as its two surrogates.
\<close>

type_synonym jsstring = "16 word list"

definition js :: "string \<Rightarrow> jsstring" where
  "js s = map (\<lambda>c. of_nat (of_char c)) s"

text \<open>The code units that \<^verbatim>\<open>trim\<close> strips: ECMAScript WhiteSpace and LineTerminator.\<close>

definition whiteSpace :: "16 word list" where
  "whiteSpace =
     [0x0009, 0x000A, 0x000B, 0x000C, 0x000D, 0x0020, 0x00A0, 0x1680,
      0x2000, 0x2001, 0x2002, 0x2003, 0x2004, 0x2005, 0x2006, 0x2007,
      0x2008, 0x2009, 0x200A, 0x2028, 0x2029, 0x202F, 0x205F, 0x3000, 0xFEFF]"

definition isWhiteSpace :: "16 word \<Rightarrow> bool" where
  "isWhiteSpace c = (c \<in> set whiteSpace)"

definition trim :: "jsstring \<Rightarrow> jsstring" where
  "trim s = rev (dropWhile isWhiteSpace (rev (dropWhile isWhiteSpace s)))"

text \<open>
  \<^verbatim>\<open>text.replace(/[...]/g, '')\<close> in \<^verbatim>\<open>speakResponse\<close>: the character class, read
  without the \<^verbatim>\<open>u\<close> flag, holds the code units of the twelve symbols listed in the source
  (U+1F4CA, U+1F680, U+1F4A1, U+1F3AF, U+2B50, U+2705, U+274C, U+1F534, U+1F3A4, U+1F5FA,
  U+FE0F, U+1F4CD).
\<close>

definition decorative :: "16 word list" where
  "decorative =
     [0xD83D, 0xDCCA, 0xD83D, 0xDE80, 0xD83D, 0xDCA1, 0xD83C, 0xDFAF, 0x2B50, 0x2705,
      0x274C, 0xD83D, 0xDD34, 0xD83C, 0xDFA4, 0xD83D, 0xDDFA, 0xFE0F, 0xD83D, 0xDCCD]"

definition cleanText :: "jsstring \<Rightarrow> jsstring" where
  "cleanText text = filter (\<lambda>c. c \<notin> set decorative) text"

section \<open>The chat page: state and effects\<close>

text \<open>
  The component \<^verbatim>\<open>ChatPage\<close> with voice input and voice output. Its hooks are the
  fields of a record; \<open>calls\<close> logs, in order, what the handlers ask of the network and
  of the two speech engines. Identifiers and timestamps are JavaScript numbers read from the
  clock, so the clock readings are arguments of the handlers.
\<close>

datatype sender = User | Bot

record message =
  msg_id :: int
  msg_type :: sender
  content :: jsstring
  timestamp :: int
  isError :: bool
  earnerInsights :: "jsstring option"

datatype call =
    ChatPost jsstring jsstring
  | SynthCancel
  | SynthSpeak jsstring
  | RecognitionStart
  | RecognitionStop

record chat =
  messages :: "message list"
  inputMessage :: jsstring
  isLoading :: bool
  earnerId :: jsstring
  isListening :: bool
  voiceSupported :: bool
  recognition :: bool
  isSpeaking :: bool
  voiceOutputEnabled :: bool
  calls :: "call list"

definition greeting :: jsstring where
  "greeting =
     [0xD83D, 0xDE80] @
     js '' Hey! I'm your personal AI Copilot! I know your profile and can help you with:'' @
     [0x0A, 0x0A, 0x2022] @ js '' Your personalized earnings predictions'' @
     [0x0A, 0x2022] @ js '' Best times and locations for you'' @
     [0x0A, 0x2022] @ js '' Weather-aware recommendations for your area'' @
     [0x0A, 0x2022] @ js '' Multi-platform optimization (rides + eats)'' @
     [0x0A, 0x2022] @ js '' City-specific insights for your home base'' @
     [0x0A, 0x0A] @
     js ''What would you like to know about maximizing your earnings today?''"

text \<open>
  The state once the component is mounted: \<open>speechRecognition\<close> tells whether the browser
  has a recognition engine (the mount effect then sets \<open>voiceSupported\<close> and
  \<open>recognition\<close>), \<open>date\<close> is the clock at the first render.
\<close>

definition mounted :: "int \<Rightarrow> bool \<Rightarrow> chat" where
  "mounted date speechRecognition =
     \<lparr>messages = [\<lparr>msg_id = 1, msg_type = Bot, content = greeting, timestamp = date,
                    isError = False, earnerInsights = None\<rparr>],
      inputMessage = [], isLoading = False, earnerId = js ''E10000'',
      isListening = False, voiceSupported = speechRecognition,
      recognition = speechRecognition, isSpeaking = False, voiceOutputEnabled = True,
      calls = []\<rparr>"

section \<open>The chat page: handlers\<close>

subsection \<open>Sending a message\<close>

text \<open>
  Every render of the component binds the hooks' values as constants, and a handler is a
  closure over the constants of the render that built it. \<open>closure_of s\<close> holds the
  constants that a render binds when the hooks are \<open>s\<close> and that
  \<^verbatim>\<open>handleSendMessage\<close> reaches: \<^verbatim>\<open>inputMessage\<close>, \<^verbatim>\<open>isLoading\<close>, \<^verbatim>\<open>earnerId\<close> and,
  through \<^verbatim>\<open>speakResponse\<close>, \<^verbatim>\<open>voiceOutputEnabled\<close>.
\<close>

record closure =
  bound_inputMessage :: jsstring
  bound_isLoading :: bool
  bound_earnerId :: jsstring
  bound_voiceOutputEnabled :: bool

definition closure_of :: "chat \<Rightarrow> closure" where
  "closure_of s =
     \<lparr>bound_inputMessage = inputMessage s, bound_isLoading = isLoading s,
      bound_earnerId = earnerId s, bound_voiceOutputEnabled = voiceOutputEnabled s\<rparr>"

text \<open>
  \<^verbatim>\<open>handleSendMessage(message = inputMessage)\<close> is an async function. Its first part runs
  up to the \<^verbatim>\<open>await\<close>. \<open>c\<close> holds the constants of the render that built the function:
  the default parameter, the gate and the posted \<^verbatim>\<open>earnerId\<close> read them, not the hooks.
  \<open>s\<close> is the hooks when the function is called: \<^verbatim>\<open>setMessages\<close> is given an updater,
  \<^verbatim>\<open>setInputMessage\<close> and \<^verbatim>\<open>setIsLoading\<close> a value, so the updates act on \<open>s\<close>. The
  argument is \<open>None\<close> when the caller passes nothing, \<open>now\<close> is \<^verbatim>\<open>Date.now()\<close> and
  \<open>date\<close> is \<^verbatim>\<open>new Date()\<close>. The result is the hooks and, when the send is accepted,
  the \<^verbatim>\<open>timestamp\<close> that the suspended call keeps for its second part.
\<close>

definition apology :: jsstring where
  "apology = js ''Sorry, I'm having trouble connecting right now. Please try again in a moment.''"

definition handleSendMessage ::
    "closure \<Rightarrow> chat \<Rightarrow> jsstring option \<Rightarrow> int \<Rightarrow> int \<Rightarrow> chat \<times> int option" where
  "handleSendMessage c s arg now date =
     (let message = (case arg of None \<Rightarrow> bound_inputMessage c | Some m \<Rightarrow> m) in
      if trim message = [] \<or> bound_isLoading c then (s, None)
      else
        let messageText = trim message;
            userMessage = \<lparr>msg_id = now, msg_type = User, content = messageText,
                           timestamp = date, isError = False, earnerInsights = None\<rparr>
        in (s\<lparr>messages := messages s @ [userMessage],
               inputMessage := [],
               isLoading := True,
               calls := calls s @ [ChatPost messageText (bound_earnerId c)]\<rparr>,
            Some now))"

text \<open>
  \<^verbatim>\<open>chatAPI.sendMessage\<close> posts the message and either returns the response body
  (\<^verbatim>\<open>response\<close>, \<^verbatim>\<open>earner_insights\<close>) or throws: axios rejects on a network error, on a
  status outside 2xx and on the 60 s timeout, and the wrapper rethrows an \<^verbatim>\<open>Error\<close>.
\<close>

datatype outcome = Fulfilled jsstring "jsstring option" | Rejected

text \<open>
  \<^verbatim>\<open>speakResponse\<close> is a closure of one render: the \<^verbatim>\<open>voiceOutputEnabled\<close> it tests is
  the constant bound in that render, passed here as \<open>enabled\<close>. The utterance's rate, pitch
  and volume are constants and are left out of the log.
\<close>

definition speakResponse :: "bool \<Rightarrow> jsstring \<Rightarrow> chat \<Rightarrow> chat" where
  "speakResponse enabled text s =
     (let s1 = s\<lparr>calls := calls s @ [SynthCancel]\<rparr> in
      if \<not> enabled then s1
      else s1\<lparr>calls := calls s1 @ [SynthSpeak (cleanText text)]\<rparr>)"

text \<open>
  The second part of \<^verbatim>\<open>handleSendMessage\<close>, after the \<^verbatim>\<open>await\<close>: the \<^verbatim>\<open>try\<close> branch on
  a response, the \<^verbatim>\<open>catch\<close> branch on a failure, then \<^verbatim>\<open>finally\<close>. \<open>ts\<close> is the
  \<^verbatim>\<open>timestamp\<close> of the first part, \<open>enabled\<close> the \<^verbatim>\<open>voiceOutputEnabled\<close> of the
  render whose \<^verbatim>\<open>speakResponse\<close> the call closed over.
\<close>

definition handleSendMessage_settle :: "bool \<Rightarrow> int \<Rightarrow> outcome \<Rightarrow> int \<Rightarrow> chat \<Rightarrow> chat" where
  "handleSendMessage_settle enabled ts out date s =
     (let s' =
        (case out of
           Fulfilled response insights \<Rightarrow>
             (let botMessage = \<lparr>msg_id = ts + 1, msg_type = Bot, content = response,
                                timestamp = date, isError = False,
                                earnerInsights = insights\<rparr>
              in speakResponse enabled response (s\<lparr>messages := messages s @ [botMessage]\<rparr>))
         | Rejected \<Rightarrow>
             (let errorMessage = \<lparr>msg_id = ts + 1, msg_type = Bot, content = apology,
                                  timestamp = date, isError = True,
                                  earnerInsights = None\<rparr>
              in s\<lparr>messages := messages s @ [errorMessage]\<rparr>))
      in s'\<lparr>isLoading := False\<rparr>)"

subsection \<open>Voice output\<close>

definition utterance_onstart :: "chat \<Rightarrow> chat" where
  "utterance_onstart s = s\<lparr>isSpeaking := True\<rparr>"

definition utterance_onend :: "chat \<Rightarrow> chat" where
  "utterance_onend s = s\<lparr>isSpeaking := False\<rparr>"

definition utterance_onerror :: "chat \<Rightarrow> chat" where
  "utterance_onerror s = s\<lparr>isSpeaking := False\<rparr>"

definition toggleVoiceOutput :: "chat \<Rightarrow> chat" where
  "toggleVoiceOutput s =
     (let s1 = (if isSpeaking s
                then s\<lparr>calls := calls s @ [SynthCancel], isSpeaking := False\<rparr>
                else s)
      in s1\<lparr>voiceOutputEnabled := \<not> voiceOutputEnabled s\<rparr>)"

definition stopSpeaking :: "chat \<Rightarrow> chat" where
  "stopSpeaking s = s\<lparr>calls := calls s @ [SynthCancel], isSpeaking := False\<rparr>"

subsection \<open>Voice input\<close>

text \<open>
  A result event of the recognition engine: \<open>results\<close> holds, for each segment, its
  \<^verbatim>\<open>isFinal\<close> flag and the transcript of its first alternative; the handler reads the
  segments from \<open>resultIndex\<close> on.
\<close>

record segment =
  isFinal :: bool
  transcript :: jsstring

record result_event =
  resultIndex :: nat
  results :: "segment list"

fun finalLoop :: "segment list \<Rightarrow> jsstring \<Rightarrow> jsstring" where
  "finalLoop [] finalTranscript = finalTranscript"
| "finalLoop (r # rs) finalTranscript =
     finalLoop rs (if isFinal r then finalTranscript @ transcript r else finalTranscript)"

definition recognition_onstart :: "chat \<Rightarrow> chat" where
  "recognition_onstart s = s\<lparr>isListening := True\<rparr>"

definition recognition_onresult :: "result_event \<Rightarrow> chat \<Rightarrow> chat" where
  "recognition_onresult event s =
     (let finalTranscript = finalLoop (drop (resultIndex event) (results event)) [] in
      if finalTranscript \<noteq> [] then s\<lparr>inputMessage := finalTranscript\<rparr> else s)"

definition recognition_onerror :: "jsstring \<Rightarrow> chat \<Rightarrow> chat" where
  "recognition_onerror code s = s\<lparr>isListening := False\<rparr>"

definition recognition_onend :: "chat \<Rightarrow> chat" where
  "recognition_onend s = s\<lparr>isListening := False\<rparr>"

definition toggleVoiceInput :: "chat \<Rightarrow> chat" where
  "toggleVoiceInput s =
     (if \<not> recognition s then s
      else if isListening s then s\<lparr>calls := calls s @ [RecognitionStop]\<rparr>
      else (s\<lparr>inputMessage := []\<rparr>)\<lparr>calls := calls s @ [RecognitionStart]\<rparr>)"

subsection \<open>Events other than a send and its answer\<close>

text \<open>
  What the rendered page lets through: the textarea is \<^verbatim>\<open>disabled={isListening}\<close>, the
  microphone button is rendered only when \<^verbatim>\<open>voiceSupported\<close> and is
  \<^verbatim>\<open>disabled={isLoading}\<close>, the speaker button is always live. The engines' events reach
  the handlers installed on the recognition instance and on each utterance. An utterance
  event names its utterance by its number among the \<^verbatim>\<open>speak\<close> calls of the log, from 0;
  \<^verbatim>\<open>speakResponse\<close> installs the same three handlers on every utterance and never removes
  them, so the handlers do not see the number. The handlers of the buttons are built anew
  by every render and are called through the page as last rendered, so they read the
  hooks.
\<close>

datatype event =
    Typed jsstring
  | MicButton
  | SpeakerButton
  | OnStart
  | OnResult result_event
  | OnError jsstring
  | OnEnd
  | UtteranceStart nat
  | UtteranceEnd nat
  | UtteranceError nat

fun handle :: "event \<Rightarrow> chat \<Rightarrow> chat" where
  "handle (Typed v) s = (if isListening s then s else s\<lparr>inputMessage := v\<rparr>)"
| "handle MicButton s = (if voiceSupported s \<and> \<not> isLoading s then toggleVoiceInput s else s)"
| "handle SpeakerButton s = toggleVoiceOutput s"
| "handle OnStart s = recognition_onstart s"
| "handle (OnResult e) s = recognition_onresult e s"
| "handle (OnError code) s = recognition_onerror code s"
| "handle OnEnd s = recognition_onend s"
| "handle (UtteranceStart u) s = utterance_onstart s"
| "handle (UtteranceEnd u) s = utterance_onend s"
| "handle (UtteranceError u) s = utterance_onerror s"

definition handle_all :: "event list \<Rightarrow> chat \<Rightarrow> chat" where
  "handle_all evs s = foldl (\<lambda>s e. handle e s) s evs"

section \<open>The chat page: renders and closures\<close>

text \<open>
  Every handler but one is built anew by each render. \<^verbatim>\<open>handleSendMessage\<close> is wrapped
  in \<^verbatim>\<open>useCallback(..., [inputMessage, isLoading, earnerId])\<close>, so the function in use is
  the one of the last render in which one of these three changed, with the constants of
  that render; the \<^verbatim>\<open>speakResponse\<close> it calls is the one of that render too. A page is
  the hooks, the closure of the memoised function, and the suspended calls whose request
  is awaited, oldest first (each with its \<^verbatim>\<open>timestamp\<close> and the
  \<^verbatim>\<open>voiceOutputEnabled\<close> it closed over). A step is one action followed by the render it
  causes; an answer settles the oldest suspended call.
\<close>

record page =
  hooks :: chat
  memo :: closure
  awaited :: "(int \<times> bool) list"

definition render :: "page \<Rightarrow> page" where
  "render p =
     (let c = closure_of (hooks p) in
      if (bound_inputMessage c, bound_isLoading c, bound_earnerId c) =
         (bound_inputMessage (memo p), bound_isLoading (memo p), bound_earnerId (memo p))
      then p
      else p\<lparr>memo := c\<rparr>)"

definition first_render :: "int \<Rightarrow> bool \<Rightarrow> page" where
  "first_render date speechRecognition =
     \<lparr>hooks = mounted date speechRecognition,
      memo = closure_of (mounted date speechRecognition),
      awaited = []\<rparr>"

datatype action =
    Send "jsstring option" int int
  | Settled outcome int
  | Event event

fun step :: "page \<Rightarrow> action \<Rightarrow> page" where
  "step p (Send arg now date) =
     (case handleSendMessage (memo p) (hooks p) arg now date of
        (s, None) \<Rightarrow> render (p\<lparr>hooks := s\<rparr>)
      | (s, Some ts) \<Rightarrow>
          render (p\<lparr>hooks := s,
                     awaited := awaited p @ [(ts, bound_voiceOutputEnabled (memo p))]\<rparr>))"
| "step p (Settled out date) =
     (case awaited p of
        [] \<Rightarrow> p
      | (ts, enabled) # rest \<Rightarrow>
          render (p\<lparr>hooks := handleSendMessage_settle enabled ts out date (hooks p),
                     awaited := rest\<rparr>))"
| "step p (Event e) = render (p\<lparr>hooks := handle e (hooks p)\<rparr>)"

definition run :: "page \<Rightarrow> action list \<Rightarrow> page" where
  "run p acts = foldl step p acts"

section \<open>The Material-UI chat: ChatInterface and VoiceInput\<close>

text \<open>
  The second chat surface of the repository. \<^verbatim>\<open>VoiceInput\<close> keeps its own
  \<^verbatim>\<open>isListening\<close> and \<^verbatim>\<open>transcript\<close> and reports to \<^verbatim>\<open>ChatInterface\<close> through
  \<^verbatim>\<open>onTranscript\<close> (which sets \<^verbatim>\<open>inputValue\<close>) and \<^verbatim>\<open>onError\<close> (which sets
  \<^verbatim>\<open>error\<close>); the two components' hooks are one record here. A message text is
  \<open>None\<close> when the response body has neither field.
\<close>

record ci_message =
  ci_id :: int
  ci_text :: "jsstring option"
  ci_sender :: sender
  ci_timestamp :: int

datatype ci_call =
    MessagePost jsstring "ci_message list"
  | VoiceStart
  | VoiceStop

record chat_interface =
  ci_messages :: "ci_message list"
  inputValue :: jsstring
  ci_isLoading :: bool
  error :: jsstring
  vi_isListening :: bool
  vi_transcript :: jsstring
  vi_recognition :: bool
  ci_calls :: "ci_call list"

datatype ci_outcome = Answered "jsstring option" "jsstring option" | Failed

definition sendMessage :: "chat_interface \<Rightarrow> jsstring \<Rightarrow> int \<Rightarrow> chat_interface \<times> nat option" where
  "sendMessage s text date =
     (if trim text = [] then (s, None)
      else
        let userMessage = \<lparr>ci_id = int (length (ci_messages s)) + 1, ci_text = Some (trim text),
                           ci_sender = User, ci_timestamp = date\<rparr>
        in (s\<lparr>ci_messages := ci_messages s @ [userMessage],
               inputValue := [],
               ci_isLoading := True,
               ci_calls := ci_calls s @
                 [MessagePost (trim text)
                    (drop (length (ci_messages s) - 5) (ci_messages s))]\<rparr>,
            Some (length (ci_messages s))))"

text \<open>
  After the \<^verbatim>\<open>await\<close>; \<open>n\<close> is \<^verbatim>\<open>messages.length\<close> of the render that made the call.
  \<^verbatim>\<open>response.data.response || response.data.message\<close> takes the second field when the
  first is missing or empty.
\<close>

definition sendMessage_settle :: "nat \<Rightarrow> ci_outcome \<Rightarrow> int \<Rightarrow> chat_interface \<Rightarrow> chat_interface" where
  "sendMessage_settle n out date s =
     (let s' =
        (case out of
           Answered response msg \<Rightarrow>
             (let botMessage = \<lparr>ci_id = int n + 2,
                                ci_text = (if response = None \<or> response = Some [] then msg
                                           else response),
                                ci_sender = Bot, ci_timestamp = date\<rparr>
              in s\<lparr>ci_messages := ci_messages s @ [botMessage]\<rparr>)
         | Failed \<Rightarrow>
             (let errorMessage = \<lparr>ci_id = int n + 2,
                                  ci_text = Some (js ''Sorry, I'm having trouble responding right now. Please try again in a moment.''),
                                  ci_sender = Bot, ci_timestamp = date\<rparr>
              in s\<lparr>error := js ''Failed to get response. Please try again.'',
                    ci_messages := ci_messages s @ [errorMessage]\<rparr>))
      in s'\<lparr>ci_isLoading := False\<rparr>)"

fun transcriptLoop :: "segment list \<Rightarrow> jsstring \<times> jsstring \<Rightarrow> jsstring \<times> jsstring" where
  "transcriptLoop [] (interimTranscript, finalTranscript) = (interimTranscript, finalTranscript)"
| "transcriptLoop (r # rs) (interimTranscript, finalTranscript) =
     transcriptLoop rs
       (if isFinal r then (interimTranscript, finalTranscript @ transcript r)
        else (interimTranscript @ transcript r, finalTranscript))"

definition voiceInput_onstart :: "chat_interface \<Rightarrow> chat_interface" where
  "voiceInput_onstart s = s\<lparr>vi_isListening := True\<rparr>"

definition voiceInput_onresult :: "result_event \<Rightarrow> chat_interface \<Rightarrow> chat_interface" where
  "voiceInput_onresult event s =
     (case transcriptLoop (drop (resultIndex event) (results event)) ([], []) of
        (interimTranscript, finalTranscript) \<Rightarrow>
          (let s1 = s\<lparr>vi_transcript :=
                       (if finalTranscript \<noteq> [] then finalTranscript else interimTranscript)\<rparr>
           in if finalTranscript \<noteq> [] then s1\<lparr>inputValue := finalTranscript\<rparr> else s1))"

definition errorMessage :: "jsstring \<Rightarrow> jsstring" where
  "errorMessage code =
     (if code = js ''no-speech'' then js ''No speech detected. Please try again.''
      else if code = js ''audio-capture''
        then js ''No microphone found. Please check your device.''
      else if code = js ''not-allowed''
        then js ''Microphone permission denied. Please enable it in browser settings.''
      else js ''Speech recognition error: '' @ code)"

definition voiceInput_onerror :: "jsstring \<Rightarrow> chat_interface \<Rightarrow> chat_interface" where
  "voiceInput_onerror code s = s\<lparr>vi_isListening := False, error := errorMessage code\<rparr>"

definition voiceInput_onend :: "chat_interface \<Rightarrow> chat_interface" where
  "voiceInput_onend s = s\<lparr>vi_isListening := False\<rparr>"

definition toggleListening :: "chat_interface \<Rightarrow> chat_interface" where
  "toggleListening s =
     (if \<not> vi_recognition s then s
      else if vi_isListening s
        then s\<lparr>ci_calls := ci_calls s @ [VoiceStop], vi_isListening := False\<rparr>
      else (s\<lparr>vi_transcript := []\<rparr>)\<lparr>ci_calls := ci_calls s @ [VoiceStart]\<rparr>)"

section \<open>Observations on the call log\<close>

fun isChatPost :: "call \<Rightarrow> bool" where
  "isChatPost (ChatPost m e) = True"
| "isChatPost c = False"

text \<open>
  The utterances handed to the synthesis engine and not cancelled since: \<^verbatim>\<open>speak\<close> puts
  an utterance in the engine's queue, \<^verbatim>\<open>cancel\<close> empties the queue.
\<close>

fun utterances :: "jsstring list \<Rightarrow> call list \<Rightarrow> jsstring list" where
  "utterances q [] = q"
| "utterances q (SynthCancel # cs) = utterances [] cs"
| "utterances q (SynthSpeak t # cs) = utterances (q @ [t]) cs"
| "utterances q (c # cs) = utterances q cs"

definition uncancelled :: "call list \<Rightarrow> jsstring list" where
  "uncancelled cs = utterances [] cs"

text \<open>
  Two replies spoken one after the other on the mounted page: the first is handed to the
  engine and starts, the second is handed to the engine while the first is in flight, and
  starts.
\<close>

definition superseded :: chat where
  "superseded =
     handle (UtteranceStart 1) (speakResponse True (js ''second reply'')
       (handle (UtteranceStart 0) (speakResponse True (js ''first reply'') (mounted 0 True))))"

text \<open>
  Identifiers that count the messages: the \<open>k\<close>-th message from the start has identifier
  \<open>k\<close>.
\<close>

definition numbered :: "ci_message list \<Rightarrow> bool" where
  "numbered ms = (map ci_id ms = map (\<lambda>k. int k + 1) [0..<length ms])"

section \<open>The committed transcript\<close>



text \<open>
  What the handlers compute: \<open>finals\<close> is the text of the finalized segments of one result
  event, \<open>last_finals\<close> the \<open>finals\<close> of the last event that had any. \<open>heard\<close> builds a
  result event of one segment.
\<close>

definition finals :: "result_event \<Rightarrow> jsstring" where
  "finals e = concat (map transcript (filter isFinal (drop (resultIndex e) (results e))))"


definition heard :: "bool \<Rightarrow> string \<Rightarrow> result_event" where
  "heard final words = \<lparr>resultIndex = 0, results = [\<lparr>isFinal = final, transcript = js words\<rparr>]\<rparr>"

text \<open>
  \<^verbatim>\<open>ChatInterface\<close> once mounted, with \<open>speechRecognition\<close> telling whether the browser has a
  recognition engine.
\<close>

definition ci_mounted :: "int \<Rightarrow> bool \<Rightarrow> chat_interface" where
  "ci_mounted date speechRecognition =
     \<lparr>ci_messages =
        [\<lparr>ci_id = 1,
          ci_text = Some (js ''Hi! I'm your Uber Copilot. Ask me anything about your earnings, when to take breaks, or how to maximize your income!''),
          ci_sender = Bot, ci_timestamp = date\<rparr>],
      inputValue = [], ci_isLoading = False, error = [],
      vi_isListening = False, vi_transcript = [], vi_recognition = speechRecognition,
      ci_calls = []\<rparr>"

section \<open>Facts about the handlers\<close>

lemma mounted_sel:
  "messages (mounted d r) = [\<lparr>msg_id = 1, msg_type = Bot, content = greeting, timestamp = d,
                             isError = False, earnerInsights = None\<rparr>]"
  "inputMessage (mounted d r) = []"
  "isLoading (mounted d r) = False"
  "earnerId (mounted d r) = js ''E10000''"
  "isListening (mounted d r) = False"
  "voiceSupported (mounted d r) = r"
  "recognition (mounted d r) = r"
  "isSpeaking (mounted d r) = False"
  "voiceOutputEnabled (mounted d r) = True"
  "calls (mounted d r) = []"
  by (simp_all add: mounted_def)

lemma trim_blank: "trim (js ''  '') = []"
  by (simp add: trim_def js_def isWhiteSpace_def whiteSpace_def)

lemma trim_hi: "trim (js ''hi'') = js ''hi''"
  by (simp add: trim_def js_def isWhiteSpace_def whiteSpace_def)

lemma handle_isLoading: "isLoading (handle e s) = isLoading s"
  by (cases e)
     (simp_all add: toggleVoiceInput_def toggleVoiceOutput_def recognition_onstart_def
        recognition_onresult_def recognition_onerror_def recognition_onend_def
        utterance_onstart_def utterance_onend_def utterance_onerror_def Let_def)

lemma handle_messages: "messages (handle e s) = messages s"
  by (cases e)
     (simp_all add: toggleVoiceInput_def toggleVoiceOutput_def recognition_onstart_def
        recognition_onresult_def recognition_onerror_def recognition_onend_def
        utterance_onstart_def utterance_onend_def utterance_onerror_def Let_def)

lemma handle_posts: "filter isChatPost (calls (handle e s)) = filter isChatPost (calls s)"
  by (cases e)
     (simp_all add: toggleVoiceInput_def toggleVoiceOutput_def recognition_onstart_def
        recognition_onresult_def recognition_onerror_def recognition_onend_def
        utterance_onstart_def utterance_onend_def utterance_onerror_def Let_def)

lemma handle_all_isLoading: "isLoading (handle_all evs s) = isLoading s"
  unfolding handle_all_def by (induction evs arbitrary: s) (simp_all add: handle_isLoading)

lemma handle_all_messages: "messages (handle_all evs s) = messages s"
  unfolding handle_all_def by (induction evs arbitrary: s) (simp_all add: handle_messages)

lemma handle_all_posts:
  "filter isChatPost (calls (handle_all evs s)) = filter isChatPost (calls s)"
  unfolding handle_all_def by (induction evs arbitrary: s) (simp_all add: handle_posts)

lemma closure_of_sel:
  "bound_inputMessage (closure_of s) = inputMessage s"
  "bound_isLoading (closure_of s) = isLoading s"
  "bound_earnerId (closure_of s) = earnerId s"
  "bound_voiceOutputEnabled (closure_of s) = voiceOutputEnabled s"
  by (simp_all add: closure_of_def)

lemma handleSendMessage_rejected:
  "trim (case arg of None \<Rightarrow> bound_inputMessage c | Some m \<Rightarrow> m) = [] \<or> bound_isLoading c \<Longrightarrow>
   handleSendMessage c s arg now date = (s, None)"
  by (auto simp: handleSendMessage_def Let_def)

lemma handleSendMessage_accepted:
  assumes "handleSendMessage c s arg now date = (s1, Some ts)"
  shows "trim (case arg of None \<Rightarrow> bound_inputMessage c | Some m \<Rightarrow> m) \<noteq> []"
    and "\<not> bound_isLoading c"
    and "ts = now"
    and "s1 = s\<lparr>messages := messages s @
              [\<lparr>msg_id = now, msg_type = User,
                content = trim (case arg of None \<Rightarrow> bound_inputMessage c | Some m \<Rightarrow> m),
                timestamp = date, isError = False, earnerInsights = None\<rparr>],
            inputMessage := [], isLoading := True,
            calls := calls s @
              [ChatPost (trim (case arg of None \<Rightarrow> bound_inputMessage c | Some m \<Rightarrow> m))
                 (bound_earnerId c)]\<rparr>"
  using assms by (auto simp: handleSendMessage_def Let_def split: if_splits)

section \<open>The send gate\<close>


text \<open>
  A call through the function of a later render is stopped by the gate: once a send is
  accepted, whatever events are handled next, the function built from the hooks as they
  then are returns without any effect.
\<close>

lemma send_after_render_rejected:
  assumes "handleSendMessage c s arg now date = (s1, Some ts)"
  shows "handleSendMessage (closure_of (handle_all evs s1)) (handle_all evs s1) arg' now' date' =
           (handle_all evs s1, None)"
proof -
  have "isLoading s1"
    using handleSendMessage_accepted(4) [OF assms] by simp
  then show ?thesis
    by (intro handleSendMessage_rejected) (simp add: closure_of_sel handle_all_isLoading)
qed

section \<open>A failed request\<close>

lemma handleSendMessage_accepts:
  "trim (case arg of None \<Rightarrow> bound_inputMessage c | Some m \<Rightarrow> m) \<noteq> [] \<Longrightarrow> \<not> bound_isLoading c \<Longrightarrow>
   snd (handleSendMessage c s arg now date) = Some now"
  by (simp add: handleSendMessage_def Let_def)

lemma settle_Rejected:
  "handleSendMessage_settle enabled ts Rejected date s =
     s\<lparr>messages := messages s @
          [\<lparr>msg_id = ts + 1, msg_type = Bot, content = apology, timestamp = date,
            isError = True, earnerInsights = None\<rparr>],
       isLoading := False\<rparr>"
  by (simp add: handleSendMessage_settle_def)

text \<open>
  C2. When an accepted send is answered by a failure (\<^verbatim>\<open>chatAPI.sendMessage\<close> throws on
  a network error, a status outside 2xx or the timeout), the conversation has grown by
  exactly two entries, whatever other events were handled while the request was awaited:
  the user's message, then one assistant message with \<open>isError\<close> set and the fixed apology
  as content. \<open>isLoading\<close> is false again, exactly one request was posted, and the next
  send with a message that is not blank, made through the function of the render that
  follows the answer, is accepted. The failure is a value consumed by the \<^verbatim>\<open>catch\<close>
  branch: the handler returns a state and nothing else. The accepted send may come from
  the function of any render, \<open>c\<close> being that render's constants.
\<close>

theorem failed_request_absorbed:
  assumes "handleSendMessage c s arg now date = (s1, Some ts)"
  shows "let message = (case arg of None \<Rightarrow> bound_inputMessage c | Some m \<Rightarrow> m);
             s2 = handleSendMessage_settle enabled ts Rejected date' (handle_all evs s1)
         in messages s2 =
              messages s @
                [\<lparr>msg_id = now, msg_type = User, content = trim message, timestamp = date,
                  isError = False, earnerInsights = None\<rparr>,
                 \<lparr>msg_id = now + 1, msg_type = Bot, content = apology, timestamp = date',
                  isError = True, earnerInsights = None\<rparr>] \<and>
            \<not> isLoading s2 \<and>
            filter isChatPost (calls s2) =
              filter isChatPost (calls s) @ [ChatPost (trim message) (bound_earnerId c)] \<and>
            (trim (case arg' of None \<Rightarrow> inputMessage s2 | Some m \<Rightarrow> m) \<noteq> [] \<longrightarrow>
               snd (handleSendMessage (closure_of s2) s2 arg' now' date'') = Some now')"
proof -
  note acc = handleSendMessage_accepted [OF assms]
  have s1: "messages s1 = messages s @
          [\<lparr>msg_id = now, msg_type = User,
            content = trim (case arg of None \<Rightarrow> bound_inputMessage c | Some m \<Rightarrow> m),
            timestamp = date, isError = False, earnerInsights = None\<rparr>]"
     "calls s1 = calls s @
          [ChatPost (trim (case arg of None \<Rightarrow> bound_inputMessage c | Some m \<Rightarrow> m))
             (bound_earnerId c)]"
    using acc(4) by simp_all
  define s2 where "s2 = handleSendMessage_settle enabled ts Rejected date' (handle_all evs s1)"
  have m: "messages s2 = messages s @
                [\<lparr>msg_id = now, msg_type = User,
                  content = trim (case arg of None \<Rightarrow> bound_inputMessage c | Some m \<Rightarrow> m),
                  timestamp = date, isError = False, earnerInsights = None\<rparr>,
                 \<lparr>msg_id = now + 1, msg_type = Bot, content = apology, timestamp = date',
                  isError = True, earnerInsights = None\<rparr>]"
    by (simp add: s2_def settle_Rejected handle_all_messages s1 acc(3))
  have l: "\<not> isLoading s2"
    by (simp add: s2_def settle_Rejected)
  have c: "filter isChatPost (calls s2) =
      filter isChatPost (calls s) @
        [ChatPost (trim (case arg of None \<Rightarrow> bound_inputMessage c | Some m \<Rightarrow> m))
           (bound_earnerId c)]"
    by (simp add: s2_def settle_Rejected handle_all_posts s1)
  have n: "trim (case arg' of None \<Rightarrow> inputMessage s2 | Some m \<Rightarrow> m) \<noteq> [] \<longrightarrow>
               snd (handleSendMessage (closure_of s2) s2 arg' now' date'') = Some now'"
  proof
    assume "trim (case arg' of None \<Rightarrow> inputMessage s2 | Some m \<Rightarrow> m) \<noteq> []"
    then have "trim (case arg' of None \<Rightarrow> bound_inputMessage (closure_of s2) | Some m \<Rightarrow> m) \<noteq> []"
      by (cases arg') (simp_all add: closure_of_sel)
    moreover have "\<not> bound_isLoading (closure_of s2)"
      using l by (simp add: closure_of_sel)
    ultimately show "snd (handleSendMessage (closure_of s2) s2 arg' now' date'') = Some now'"
      by (rule handleSendMessage_accepts)
  qed
  show ?thesis
    unfolding Let_def s2_def [symmetric] using m l c n by simp
qed

theorem failed_request_absorbed_witness:
  "let s = mounted 0 True;
       s1 = fst (handleSendMessage (closure_of s) s (Some (js ''hi'')) 1000 1000);
       s2 = handleSendMessage_settle True 1000 Rejected 1500 (handle_all [SpeakerButton] s1)
   in handleSendMessage (closure_of s) s (Some (js ''hi'')) 1000 1000 = (s1, Some 1000) \<and>
      map msg_id (messages s2) = [1, 1000, 1001] \<and>
      map isError (messages s2) = [False, False, True] \<and>
      map content (messages s2) = [greeting, js ''hi'', apology] \<and>
      \<not> isLoading s2 \<and>
      filter isChatPost (calls s2) = [ChatPost (js ''hi'') (js ''E10000'')] \<and>
      trim (js ''hi'') \<noteq> [] \<and>
      snd (handleSendMessage (closure_of s2) s2 (Some (js ''hi'')) 2000 2000) = Some 2000"
proof -
  define s1 where
    "s1 = fst (handleSendMessage (closure_of (mounted 0 True)) (mounted 0 True)
                 (Some (js ''hi'')) 1000 1000)"
  define s2 where
    "s2 = handleSendMessage_settle True 1000 Rejected 1500 (handle_all [SpeakerButton] s1)"
  have ne: "js ''hi'' \<noteq> []" by (simp add: js_def)
  have acc: "handleSendMessage (closure_of (mounted 0 True)) (mounted 0 True)
               (Some (js ''hi'')) 1000 1000 = (s1, Some 1000)"
    using ne by (simp add: s1_def handleSendMessage_def trim_hi Let_def mounted_sel closure_of_sel)
  note t = failed_request_absorbed [OF acc, where enabled = True and date' = 1500
      and evs = "[SpeakerButton]" and arg' = "Some (js ''hi'')" and now' = 2000 and date'' = 2000,
      unfolded Let_def, folded s2_def]
  have "map msg_id (messages s2) = [1, 1000, 1001]"
       "map isError (messages s2) = [False, False, True]"
       "map content (messages s2) = [greeting, js ''hi'', apology]"
       "\<not> isLoading s2"
       "filter isChatPost (calls s2) = [ChatPost (js ''hi'') (js ''E10000'')]"
       "snd (handleSendMessage (closure_of s2) s2 (Some (js ''hi'')) 2000 2000) = Some 2000"
    using t ne by (simp_all add: mounted_sel trim_hi closure_of_sel)
  then show ?thesis
    unfolding Let_def s1_def [symmetric] s2_def [symmetric] using acc ne by (simp add: trim_hi)
qed

section \<open>One utterance at a time\<close>

lemma utterances_append: "utterances q (cs @ ds) = utterances (utterances q cs) ds"
  by (induction q cs rule: utterances.induct) simp_all

lemma uncancelled_snoc:
  "uncancelled (cs @ [SynthCancel]) = []"
  "uncancelled (cs @ [SynthSpeak t]) = uncancelled cs @ [t]"
  "uncancelled (cs @ [ChatPost m e]) = uncancelled cs"
  "uncancelled (cs @ [RecognitionStart]) = uncancelled cs"
  "uncancelled (cs @ [RecognitionStop]) = uncancelled cs"
  by (simp_all add: uncancelled_def utterances_append)

lemma speakResponse_calls:
  "calls (speakResponse enabled text s) =
     calls s @ SynthCancel # (if enabled then [SynthSpeak (cleanText text)] else [])"
  by (simp add: speakResponse_def Let_def)

lemma speakResponse_uncancelled:
  "uncancelled (calls (speakResponse enabled text s)) = (if enabled then [cleanText text] else [])"
  by (simp add: speakResponse_def Let_def uncancelled_def utterances_append)

lemma handle_uncancelled:
  "length (uncancelled (calls (handle e s))) \<le> length (uncancelled (calls s))"
  by (cases e)
     (simp_all add: toggleVoiceInput_def toggleVoiceOutput_def recognition_onstart_def
        recognition_onresult_def recognition_onerror_def recognition_onend_def
        utterance_onstart_def utterance_onend_def utterance_onerror_def Let_def
        uncancelled_snoc)

lemma settle_uncancelled:
  "length (uncancelled (calls s)) \<le> 1 \<Longrightarrow>
   length (uncancelled (calls (handleSendMessage_settle enabled ts out date s))) \<le> 1"
  by (cases out) (simp_all add: handleSendMessage_settle_def speakResponse_def Let_def
      uncancelled_def utterances_append)

lemma hooks_render: "hooks (render p) = hooks p"
  by (simp add: render_def Let_def)

lemma step_uncancelled:
  "length (uncancelled (calls (hooks p))) \<le> 1 \<Longrightarrow>
   length (uncancelled (calls (hooks (step p a)))) \<le> 1"
proof (cases a)
  case (Send arg now date)
  assume inv: "length (uncancelled (calls (hooks p))) \<le> 1"
  show ?thesis
  proof (cases "handleSendMessage (memo p) (hooks p) arg now date")
    case (Pair s r)
    show ?thesis
    proof (cases r)
      case None
      with Pair have "s = hooks p"
        by (auto simp: handleSendMessage_def Let_def split: if_splits)
      with inv Send Pair None show ?thesis by (simp add: hooks_render)
    next
      case (Some ts)
      with Pair have "calls s = calls (hooks p) @
          [ChatPost (trim (case arg of None \<Rightarrow> bound_inputMessage (memo p) | Some m \<Rightarrow> m))
             (bound_earnerId (memo p))]"
        using handleSendMessage_accepted(4) [of "memo p" "hooks p" arg now date s ts] by simp
      with inv Send Pair Some show ?thesis by (simp add: hooks_render uncancelled_snoc)
    qed
  qed
next
  case (Settled out date)
  assume inv: "length (uncancelled (calls (hooks p))) \<le> 1"
  show ?thesis
  proof (cases "awaited p")
    case Nil
    with inv Settled show ?thesis by simp
  next
    case (Cons x rest)
    obtain ts enabled where x: "x = (ts, enabled)" by (cases x)
    from settle_uncancelled [OF inv, of enabled ts out date] show ?thesis
      using Settled Cons x by (simp add: hooks_render)
  qed
next
  case (Event e)
  assume inv: "length (uncancelled (calls (hooks p))) \<le> 1"
  then show ?thesis
    using Event handle_uncancelled [of e "hooks p"] by (simp add: hooks_render)
qed

lemma run_uncancelled:
  "length (uncancelled (calls (hooks p))) \<le> 1 \<Longrightarrow>
   length (uncancelled (calls (hooks (run p acts)))) \<le> 1"
  unfolding run_def
proof (induction acts arbitrary: p)
  case Nil
  then show ?case by simp
next
  case (Cons a acts)
  show ?case
    using Cons.IH [OF step_uncancelled [OF Cons.prems]] by simp
qed

text \<open>
  C4, as the code has it. \<^verbatim>\<open>speakResponse\<close> called with voice output enabled for \<open>a\<close>
  and then for \<open>b\<close> while \<open>a\<close> is in flight (whether or not a start event of \<open>a\<close> has been
  handled in between) asks the engine for exactly
  \<^verbatim>\<open>cancel, speak a, cancel, speak b\<close>, the texts cleaned: one cancel lies between the two
  utterances. After the first call the only utterance not cancelled is \<open>a\<close>, after the
  second it is \<open>b\<close>. In every state the page reaches from its first render, at most one
  utterance is handed to the engine and not cancelled: there is no queue. The handlers do
  not tell the utterances apart: a start event of any utterance sets \<open>isSpeaking\<close>, an end
  or error event of any utterance clears it and changes nothing else.
\<close>

theorem single_flight:
  "calls (speakResponse True b (speakResponse True a s)) =
     calls s @ [SynthCancel, SynthSpeak (cleanText a), SynthCancel, SynthSpeak (cleanText b)] \<and>
   calls (speakResponse True b (handle (UtteranceStart k) (speakResponse True a s))) =
     calls s @ [SynthCancel, SynthSpeak (cleanText a), SynthCancel, SynthSpeak (cleanText b)] \<and>
   uncancelled (calls (speakResponse True a s)) = [cleanText a] \<and>
   uncancelled (calls (speakResponse True b (handle (UtteranceStart k) (speakResponse True a s)))) =
     [cleanText b] \<and>
   length (uncancelled (calls (hooks (run (first_render date r) acts)))) \<le> 1 \<and>
   handle (UtteranceStart k) s = s\<lparr>isSpeaking := True\<rparr> \<and>
   handle (UtteranceEnd k) s = s\<lparr>isSpeaking := False\<rparr> \<and>
   handle (UtteranceError k) s = s\<lparr>isSpeaking := False\<rparr>"
proof -
  have "length (uncancelled (calls (hooks (first_render date r)))) \<le> 1"
    by (simp add: first_render_def mounted_sel uncancelled_def)
  then have "length (uncancelled (calls (hooks (run (first_render date r) acts)))) \<le> 1"
    by (rule run_uncancelled)
  then show ?thesis
    by (simp add: utterance_onstart_def utterance_onend_def utterance_onerror_def
        speakResponse_def Let_def uncancelled_def utterances_append)
qed

text \<open>
  C4, as the specification states it, fails where it says that only the ended event of
  \<open>b\<close> is observed after \<open>b\<close> was issued. On the mounted page a first reply is spoken and
  starts, a second reply is spoken while the first is in flight, and starts: the engine
  was asked for cancel, speak, cancel, speak, only the second utterance is not cancelled
  and \<open>isSpeaking\<close> holds. An end event of the first utterance (number 0) that reaches the
  page now, because the engine had it on its way or sends it on the cancel, is handled:
  it changes the state, and \<open>isSpeaking\<close> is false while the second utterance is in
  flight.
\<close>

theorem ended_event_of_superseded_utterance_observed:
  "calls superseded =
     [SynthCancel, SynthSpeak (js ''first reply''), SynthCancel, SynthSpeak (js ''second reply'')] \<and>
   uncancelled (calls superseded) = [js ''second reply''] \<and>
   isSpeaking superseded \<and>
   handle (UtteranceEnd 0) superseded \<noteq> superseded \<and>
   \<not> isSpeaking (handle (UtteranceEnd 0) superseded) \<and>
   uncancelled (calls (handle (UtteranceEnd 0) superseded)) = [js ''second reply'']"
proof -
  have c: "cleanText (js ''first reply'') = js ''first reply''"
    "cleanText (js ''second reply'') = js ''second reply''"
    by (simp_all add: cleanText_def decorative_def js_def)
  have s: "superseded =
     (mounted 0 True)\<lparr>calls := [SynthCancel, SynthSpeak (js ''first reply''), SynthCancel,
                                 SynthSpeak (js ''second reply'')],
                       isSpeaking := True\<rparr>"
    by (simp add: superseded_def speakResponse_def utterance_onstart_def Let_def c mounted_def)
  have u: "uncancelled [SynthCancel, SynthSpeak (js ''first reply''), SynthCancel,
                        SynthSpeak (js ''second reply'')] = [js ''second reply'']"
    by (simp add: uncancelled_def)
  have d: "handle (UtteranceEnd 0) superseded \<noteq> superseded"
  proof
    assume "handle (UtteranceEnd 0) superseded = superseded"
    then have "isSpeaking (handle (UtteranceEnd 0) superseded) = isSpeaking superseded"
      by simp
    then show False
      by (simp add: s utterance_onend_def)
  qed
  show ?thesis
    using d by (simp add: s u utterance_onend_def)
qed

section \<open>Speaking a reply\<close>

lemmas eval_defs =
  run_def render_def first_render_def closure_of_def mounted_def handleSendMessage_def
  handleSendMessage_settle_def speakResponse_def toggleVoiceOutput_def toggleVoiceInput_def
  recognition_onstart_def recognition_onresult_def recognition_onerror_def recognition_onend_def
  utterance_onstart_def utterance_onend_def utterance_onerror_def
  trim_def isWhiteSpace_def whiteSpace_def cleanText_def decorative_def js_def Let_def

lemma settle_calls:
  "calls (handleSendMessage_settle enabled ts (Fulfilled response insights) date s) =
     calls s @ SynthCancel # (if enabled then [SynthSpeak (cleanText response)] else [])"
  "calls (handleSendMessage_settle enabled ts Rejected date s) = calls s"
  by (simp_all add: handleSendMessage_settle_def speakResponse_def Let_def)

text \<open>
  C3. A reply that is not an error is to be spoken exactly when voice output is enabled.
  \<^verbatim>\<open>speakResponse\<close> tests the \<^verbatim>\<open>voiceOutputEnabled\<close> of the render that built the
  \<^verbatim>\<open>handleSendMessage\<close> in use, and neither name is a dependency of its
  \<^verbatim>\<open>useCallback\<close>. Two runs from the first render end with voice output disabled and the
  engine asked to speak the reply all the same. In the first the user types ``hi'', sends
  it, switches voice output off while the request is awaited, and the reply arrives. In
  the second the user switches voice output off and then taps a quick question without
  typing, so the memoised function is still the one of the first render.
\<close>

theorem muted_reply_is_spoken:
  "(let p = run (first_render 0 True)
              [Event (Typed (js ''hi'')), Send None 1000 1000, Event SpeakerButton,
               Settled (Fulfilled (js ''Go online now'') None) 1500]
    in \<not> voiceOutputEnabled (hooks p) \<and>
       map msg_type (messages (hooks p)) = [Bot, User, Bot] \<and>
       map isError (messages (hooks p)) = [False, False, False] \<and>
       content (last (messages (hooks p))) = js ''Go online now'' \<and>
       calls (hooks p) =
         [ChatPost (js ''hi'') (js ''E10000''), SynthCancel, SynthSpeak (js ''Go online now'')]) \<and>
   (let p = run (first_render 0 True)
              [Event SpeakerButton, Send (Some (js ''When are the peak hours in my city?'')) 1000 1000]
    in \<not> voiceOutputEnabled (hooks p) \<and>
       (let q = step p (Settled (Fulfilled (js ''Go online now'') None) 1500)
        in \<not> voiceOutputEnabled (hooks q) \<and>
           content (last (messages (hooks q))) = js ''Go online now'' \<and>
           \<not> isError (last (messages (hooks q))) \<and>
           calls (hooks q) = calls (hooks p) @ [SynthCancel, SynthSpeak (js ''Go online now'')]))"
  by (simp add: eval_defs)

section \<open>Message identifiers\<close>

lemma settle_messages:
  "messages (handleSendMessage_settle enabled ts out date s) =
     messages s @
       [\<lparr>msg_id = ts + 1, msg_type = Bot,
         content = (case out of Fulfilled response insights \<Rightarrow> response | Rejected \<Rightarrow> apology),
         timestamp = date,
         isError = (case out of Fulfilled response insights \<Rightarrow> False | Rejected \<Rightarrow> True),
         earnerInsights = (case out of Fulfilled response insights \<Rightarrow> insights | Rejected \<Rightarrow> None)\<rparr>]"
  by (cases out) (simp_all add: handleSendMessage_settle_def speakResponse_def Let_def)

lemma exchange_ids_increase:
  assumes "handleSendMessage c s arg now date = (s1, Some ts)"
    and "sorted_wrt (<) (map msg_id (messages s))"
    and "\<forall>m \<in> set (messages s). msg_id m < now"
  shows "sorted_wrt (<)
           (map msg_id (messages (handleSendMessage_settle enabled ts out date' (handle_all evs s1))))"
    and "\<forall>m \<in> set (messages (handleSendMessage_settle enabled ts out date' (handle_all evs s1))).
           msg_id m \<le> now + 1"
proof -
  note acc = handleSendMessage_accepted [OF assms(1)]
  have m: "map msg_id (messages (handleSendMessage_settle enabled ts out date' (handle_all evs s1)))
      = map msg_id (messages s) @ [now, now + 1]"
    using acc(4) by (simp add: settle_messages handle_all_messages acc(3))
  show "sorted_wrt (<)
           (map msg_id (messages (handleSendMessage_settle enabled ts out date' (handle_all evs s1))))"
    unfolding m using assms(2,3) by (auto simp: sorted_wrt_append)
  have "\<forall>i \<in> set (map msg_id (messages (handleSendMessage_settle enabled ts out date' (handle_all evs s1)))).
           i \<le> now + 1"
    unfolding m using assms(3) by auto
  then show "\<forall>m \<in> set (messages (handleSendMessage_settle enabled ts out date' (handle_all evs s1))).
           msg_id m \<le> now + 1"
    by simp
qed

lemma sendMessage_numbered:
  assumes "numbered (ci_messages s)"
    and "sendMessage s text date = (s1, Some n)"
  shows "numbered (ci_messages (sendMessage_settle n out date' s1))"
proof -
  from assms(2) have n: "n = length (ci_messages s)"
    and s1: "ci_messages s1 = ci_messages s @
        [\<lparr>ci_id = int (length (ci_messages s)) + 1, ci_text = Some (trim text),
          ci_sender = User, ci_timestamp = date\<rparr>]"
    by (auto simp: sendMessage_def Let_def split: if_splits)
  from assms(1) show ?thesis
    by (cases out) (simp_all add: numbered_def sendMessage_settle_def s1 n)
qed

lemma numbered_increasing:
  assumes "numbered ms"
  shows "sorted_wrt (<) (map ci_id ms)"
proof -
  have "sorted_wrt (<) [0..<length ms]"
    by simp
  then have "sorted_wrt (\<lambda>x y. int x + 1 < int y + 1) [0..<length ms]"
    by (rule sorted_wrt_mono_rel [rotated]) simp
  then have "sorted_wrt (<) (map (\<lambda>k. int k + 1) [0..<length ms])"
    by (simp add: sorted_wrt_map)
  with assms show ?thesis
    by (simp add: numbered_def)
qed


text \<open>
  C7. Identifiers are to be pairwise distinct and strictly increasing in creation order.
  On the chat page they are \<^verbatim>\<open>Date.now()\<close> of the send and that value plus one, so two
  sends whose clock readings are less than two apart collide, and a clock set back between
  two sends gives a smaller identifier to the later message. (When every send reads a clock
  beyond all identifiers of the log, the identifiers do increase: \<open>exchange_ids_increase\<close>;
  the counter of \<^verbatim>\<open>ChatInterface\<close> keeps them increasing whatever the clock:
  \<open>sendMessage_numbered\<close>.)
\<close>

theorem colliding_ids:
  "(let p = run (first_render 0 True)
              [Event (Typed (js ''a'')), Send None 1000 1000, Settled Rejected 1000,
               Event (Typed (js ''b'')), Send None 1001 1001,
               Settled (Fulfilled (js ''ok'') None) 1001]
    in map msg_id (messages (hooks p)) = [1, 1000, 1001, 1001, 1002] \<and>
       \<not> distinct (map msg_id (messages (hooks p)))) \<and>
   (let p = run (first_render 0 True)
              [Event (Typed (js ''a'')), Send None 5000 5000,
               Settled (Fulfilled (js ''ok'') None) 5400,
               Event (Typed (js ''b'')), Send None 4000 4000,
               Settled (Fulfilled (js ''ok'') None) 4400]
    in map msg_id (messages (hooks p)) = [1, 5000, 5001, 4000, 4001] \<and>
       \<not> sorted_wrt (<) (map msg_id (messages (hooks p))))"
  by (simp add: eval_defs)

section \<open>The committed transcript and the handlers\<close>

lemma finalLoop_concat:
  "finalLoop rs acc = acc @ concat (map transcript (filter isFinal rs))"
  by (induction rs arbitrary: acc) simp_all

lemma recognition_onresult_finals:
  "recognition_onresult e s = (if finals e \<noteq> [] then s\<lparr>inputMessage := finals e\<rparr> else s)"
  by (simp only: recognition_onresult_def finals_def finalLoop_concat Let_def append_Nil)


lemma results_isListening:
  "isListening (handle_all (map OnResult evs) s) = isListening s"
  unfolding handle_all_def
  by (induction evs arbitrary: s) (simp_all add: recognition_onresult_finals)

lemma results_calls:
  "calls (handle_all (map OnResult evs) s) = calls s"
  unfolding handle_all_def
  by (induction evs arbitrary: s) (simp_all add: recognition_onresult_finals)

lemma results_recognition:
  "recognition (handle_all (map OnResult evs) s) = recognition s"
  unfolding handle_all_def
  by (induction evs arbitrary: s) (simp_all add: recognition_onresult_finals)






text \<open>
  What else is handled during the session can write the buffer too. The textarea is live
  until the start event is handled, so text typed after the tap stays in the buffer; the
  send button is live while listening, so a send after a finalized result empties it.
\<close>

lemma typed_before_start_stays:
  "inputMessage (handle OnEnd (handle OnStart
       (handle (Typed (js ''abc'')) (toggleVoiceInput (mounted 0 True))))) = js ''abc''"
  by (simp add: toggleVoiceInput_def recognition_onstart_def recognition_onend_def mounted_sel)

lemma send_while_listening_clears:
  "inputMessage (handle OnEnd (fst (handleSendMessage
       (closure_of (handle (OnResult (heard True ''how much'')) (handle OnStart
          (toggleVoiceInput (mounted 0 True)))))
       (handle (OnResult (heard True ''how much'')) (handle OnStart
          (toggleVoiceInput (mounted 0 True))))
       None 1000 1000))) = []"
  by (simp add: handleSendMessage_def Let_def recognition_onend_def recognition_onresult_def
      recognition_onstart_def toggleVoiceInput_def mounted_sel closure_of_def heard_def
      trim_def isWhiteSpace_def whiteSpace_def js_def)

section \<open>Back to idle\<close>

text \<open>
  C6. Whatever events were handled before, once the engine's end event or an error event
  is handled \<open>isListening\<close> is false, on the chat page and in \<^verbatim>\<open>VoiceInput\<close> alike. A
  start and a stop requested through the microphone button, with result events in
  between, ask the engine for exactly start and stop; on the chat page the session is
  idle once the engine's end event answers the stop, in \<^verbatim>\<open>VoiceInput\<close> already when the
  stop is requested.
\<close>

theorem idle_after_terminal_event:
  "\<not> isListening (handle OnEnd (handle_all evs s)) \<and>
   \<not> isListening (handle (OnError code) (handle_all evs s)) \<and>
   \<not> vi_isListening (voiceInput_onend c) \<and>
   \<not> vi_isListening (voiceInput_onerror code c) \<and>
   (recognition s \<and> \<not> isListening s \<longrightarrow>
      calls (toggleVoiceInput (handle_all (map OnResult rs) (handle OnStart (toggleVoiceInput s))))
        = calls s @ [RecognitionStart, RecognitionStop] \<and>
      \<not> isListening (handle OnEnd
          (toggleVoiceInput (handle_all (map OnResult rs) (handle OnStart (toggleVoiceInput s)))))) \<and>
   (vi_recognition c \<and> \<not> vi_isListening c \<longrightarrow>
      ci_calls (toggleListening (voiceInput_onstart (toggleListening c)))
        = ci_calls c @ [VoiceStart, VoiceStop] \<and>
      \<not> vi_isListening (toggleListening (voiceInput_onstart (toggleListening c))))"
proof -
  have "recognition s \<and> \<not> isListening s \<longrightarrow>
      calls (toggleVoiceInput (handle_all (map OnResult rs) (handle OnStart (toggleVoiceInput s))))
        = calls s @ [RecognitionStart, RecognitionStop]"
    by (simp add: toggleVoiceInput_def [of "handle_all (map OnResult rs) (recognition_onstart (toggleVoiceInput s))"]
          results_isListening results_calls results_recognition)
       (simp add: toggleVoiceInput_def recognition_onstart_def)
  moreover have "vi_recognition c \<and> \<not> vi_isListening c \<longrightarrow>
      ci_calls (toggleListening (voiceInput_onstart (toggleListening c)))
        = ci_calls c @ [VoiceStart, VoiceStop] \<and>
      \<not> vi_isListening (toggleListening (voiceInput_onstart (toggleListening c)))"
    by (simp add: toggleListening_def voiceInput_onstart_def)
  ultimately show ?thesis
    by (simp add: recognition_onend_def recognition_onerror_def voiceInput_onend_def
        voiceInput_onerror_def)
qed

theorem idle_after_terminal_event_witness:
  "\<not> isListening (handle OnEnd (handle_all [OnStart, OnResult (heard True ''hello'')] (mounted 0 True))) \<and>
   \<not> isListening (handle (OnError (js ''no-speech'')) (handle_all [OnStart] (mounted 0 True))) \<and>
   recognition (mounted 0 True) \<and> \<not> isListening (mounted 0 True) \<and>
   calls (toggleVoiceInput (handle_all (map OnResult [heard False ''hello''])
       (handle OnStart (toggleVoiceInput (mounted 0 True)))))
     = [RecognitionStart, RecognitionStop] \<and>
   \<not> isListening (handle OnEnd (toggleVoiceInput (handle_all (map OnResult [heard False ''hello''])
       (handle OnStart (toggleVoiceInput (mounted 0 True)))))) \<and>
   vi_recognition (ci_mounted 0 True) \<and> \<not> vi_isListening (ci_mounted 0 True) \<and>
   ci_calls (toggleListening (voiceInput_onstart (toggleListening (ci_mounted 0 True))))
     = [VoiceStart, VoiceStop] \<and>
   \<not> vi_isListening (toggleListening (voiceInput_onstart (toggleListening (ci_mounted 0 True))))"
proof -
  note a = idle_after_terminal_event [where s = "mounted 0 True" and c = "ci_mounted 0 True"
      and evs = "[OnStart, OnResult (heard True ''hello'')]" and code = "js ''no-speech''"
      and rs = "[heard False ''hello'']"]
  note b = idle_after_terminal_event [where s = "mounted 0 True" and c = "ci_mounted 0 True"
      and evs = "[OnStart]" and code = "js ''no-speech''" and rs = "[heard False ''hello'']"]
  have c: "vi_recognition (ci_mounted 0 True)" "\<not> vi_isListening (ci_mounted 0 True)"
    "ci_calls (ci_mounted 0 True) = []"
    by (simp_all add: ci_mounted_def)
  from a b c show ?thesis
    by (simp add: mounted_sel)
qed

section \<open>The voice output toggle\<close>

lemma toggleVoiceOutput_flag:
  "isSpeaking s \<Longrightarrow>
   toggleVoiceOutput s =
     s\<lparr>calls := calls s @ [SynthCancel], isSpeaking := False,
       voiceOutputEnabled := \<not> voiceOutputEnabled s\<rparr>"
  "\<not> isSpeaking s \<Longrightarrow> toggleVoiceOutput s = s\<lparr>voiceOutputEnabled := \<not> voiceOutputEnabled s\<rparr>"
  by (simp_all add: toggleVoiceOutput_def Let_def)

text \<open>
  C8. Switching voice output off while a reply is being spoken is to cancel it at once,
  and switching it on again is to touch nothing but later replies.
  \<^verbatim>\<open>toggleVoiceOutput\<close> cancels when the \<open>isSpeaking\<close> flag is set, in either direction, and
  the flag is set by the start event of the utterance, not by \<^verbatim>\<open>speak\<close>. On the first
  render the user types ``hi'' and sends it, the reply arrives and is handed to the
  engine, and the user switches voice output off before the start event is handled: no
  cancel is asked for, and the reply stays with the engine although voice output is off.
  The start event is then handled and the user switches voice output on again: now the
  engine is asked to cancel, and the reply being spoken is cut.
\<close>

theorem mute_before_start_event:
  "let p = run (first_render 0 True)
             [Event (Typed (js ''hi'')), Send None 1000 1000,
              Settled (Fulfilled (js ''Go online now'') None) 1500, Event SpeakerButton];
       q = run p [Event (UtteranceStart 0), Event SpeakerButton]
   in \<not> voiceOutputEnabled (hooks p) \<and>
      calls (hooks p) =
        [ChatPost (js ''hi'') (js ''E10000''), SynthCancel, SynthSpeak (js ''Go online now'')] \<and>
      uncancelled (calls (hooks p)) = [js ''Go online now''] \<and>
      voiceOutputEnabled (hooks q) \<and>
      calls (hooks q) =
        [ChatPost (js ''hi'') (js ''E10000''), SynthCancel, SynthSpeak (js ''Go online now''),
         SynthCancel] \<and>
      uncancelled (calls (hooks q)) = [] \<and>
      messages (hooks q) = messages (hooks p)"
  by (simp add: eval_defs uncancelled_def)

section \<open>Recognition errors\<close>

text \<open>
  C9. Every recognition error is to fall into one of five classes (no speech, no device,
  no permission, network, other), each with its own fixed message. \<^verbatim>\<open>VoiceInput\<close> has
  fixed messages for three codes only: \<^verbatim>\<open>network\<close> has no case of its own and, like every
  other code, gets a message built from the code, so two codes of the class ``other''
  get different messages. The chat page reports nothing at all: after an error the state
  is as it was before listening started.
\<close>

theorem error_messages_by_code:
  "errorMessage (js ''network'') = js ''Speech recognition error: network'' \<and>
   errorMessage (js ''aborted'') = js ''Speech recognition error: aborted'' \<and>
   errorMessage (js ''service-not-allowed'') = js ''Speech recognition error: service-not-allowed'' \<and>
   errorMessage (js ''aborted'') \<noteq> errorMessage (js ''service-not-allowed'') \<and>
   error (voiceInput_onerror (js ''network'') (voiceInput_onstart (ci_mounted 0 True)))
     = js ''Speech recognition error: network'' \<and>
   recognition_onerror (js ''network'') (recognition_onstart (mounted 0 True)) = mounted 0 True"
  by (simp add: errorMessage_def voiceInput_onerror_def voiceInput_onstart_def ci_mounted_def
      recognition_onerror_def recognition_onstart_def mounted_def js_def)

section \<open>Starting voice input\<close>

text \<open>
  C10. \<^verbatim>\<open>toggleVoiceInput\<close> with a recognition instance and \<open>isListening\<close> false sets the
  composed buffer to the empty string and asks the engine to start; nothing else changes.
  A draft typed before the microphone button is tapped is lost.
\<close>

theorem listening_clears_draft:
  assumes "recognition s" and "\<not> isListening s"
  shows "toggleVoiceInput s = s\<lparr>inputMessage := [], calls := calls s @ [RecognitionStart]\<rparr> \<and>
         inputMessage (toggleVoiceInput s) = [] \<and>
         (voiceSupported s \<and> \<not> isLoading s \<longrightarrow> inputMessage (handle MicButton s) = [])"
  using assms by (simp add: toggleVoiceInput_def)

theorem listening_clears_draft_witness:
  "(let s = handle (Typed (js ''a draft'')) (mounted 0 True)
    in recognition s \<and> \<not> isListening s \<and> voiceSupported s \<and> \<not> isLoading s \<and>
       inputMessage s = js ''a draft'' \<and> js ''a draft'' \<noteq> [] \<and>
       inputMessage (toggleVoiceInput s) = [] \<and>
       inputMessage (handle MicButton s) = [] \<and>
       calls (toggleVoiceInput s) = [RecognitionStart])"
proof -
  define s where "s = handle (Typed (js ''a draft'')) (mounted 0 True)"
  have s: "recognition s" "\<not> isListening s" "voiceSupported s" "\<not> isLoading s"
    "inputMessage s = js ''a draft''" "calls s = []"
    by (simp_all add: s_def mounted_sel)
  have ne: "js ''a draft'' \<noteq> []"
    by (simp add: js_def)
  from listening_clears_draft [OF s(1,2)] s
  have "inputMessage (toggleVoiceInput s) = []" "inputMessage (handle MicButton s) = []"
    "calls (toggleVoiceInput s) = [RecognitionStart]"
    by simp_all
  then show ?thesis
    unfolding Let_def s_def [symmetric] using s ne by simp
qed

section \<open>The memoised handler and the awaited request\<close>

text \<open>
  After every render the \<open>inputMessage\<close>, \<open>isLoading\<close> and \<open>earnerId\<close> of the memoised
  \<^verbatim>\<open>handleSendMessage\<close> are those of the hooks; only what the function reaches outside its
  dependency list can be stale then. On every page reached by steps from one where this
  is so, a call is suspended exactly while \<open>isLoading\<close> holds, and never more than one.
\<close>

lemma render_memo:
  "bound_inputMessage (memo (render p)) = inputMessage (hooks p)"
  "bound_isLoading (memo (render p)) = isLoading (hooks p)"
  "bound_earnerId (memo (render p)) = earnerId (hooks p)"
  by (auto simp: render_def Let_def closure_of_def)

lemma awaited_render: "awaited (render p) = awaited p"
  by (simp add: render_def Let_def)

lemma settle_isLoading: "\<not> isLoading (handleSendMessage_settle enabled ts out date s)"
  by (simp add: handleSendMessage_settle_def Let_def)

lemma step_awaited:
  assumes "bound_isLoading (memo p) = isLoading (hooks p)"
    and "length (awaited p) = (if isLoading (hooks p) then 1 else 0)"
  shows "bound_isLoading (memo (step p a)) = isLoading (hooks (step p a))"
    and "length (awaited (step p a)) = (if isLoading (hooks (step p a)) then 1 else 0)"
proof -
  have "bound_isLoading (memo (step p a)) = isLoading (hooks (step p a)) \<and>
        length (awaited (step p a)) = (if isLoading (hooks (step p a)) then 1 else 0)"
  proof (cases a)
    case (Send arg now date)
    show ?thesis
    proof (cases "handleSendMessage (memo p) (hooks p) arg now date")
      case (Pair s r)
      show ?thesis
      proof (cases r)
        case None
        with Pair have "s = hooks p"
          by (auto simp: handleSendMessage_def Let_def split: if_splits)
        with assms Send Pair None show ?thesis
          by (simp add: hooks_render awaited_render render_memo)
      next
        case (Some ts)
        with Pair have "isLoading s" and "\<not> bound_isLoading (memo p)"
          using handleSendMessage_accepted(2,4) [of "memo p" "hooks p" arg now date s ts]
          by simp_all
        with assms Send Pair Some show ?thesis
          by (simp add: hooks_render awaited_render render_memo)
      qed
    qed
  next
    case (Settled out date)
    show ?thesis
    proof (cases "awaited p")
      case Nil
      with assms Settled show ?thesis by simp
    next
      case (Cons x rest)
      obtain ts enabled where x: "x = (ts, enabled)" by (cases x)
      from Cons assms(2) have "rest = []"
        by (cases "isLoading (hooks p)") simp_all
      with Settled Cons x show ?thesis
        by (simp add: hooks_render awaited_render render_memo settle_isLoading)
    qed
  next
    case (Event e)
    with assms show ?thesis
      by (simp add: hooks_render awaited_render render_memo handle_isLoading)
  qed
  then show "bound_isLoading (memo (step p a)) = isLoading (hooks (step p a))"
    and "length (awaited (step p a)) = (if isLoading (hooks (step p a)) then 1 else 0)"
    by simp_all
qed

lemma run_awaited:
  assumes "bound_isLoading (memo p) = isLoading (hooks p)"
    and "length (awaited p) = (if isLoading (hooks p) then 1 else 0)"
  shows "length (awaited (run p acts)) = (if isLoading (hooks (run p acts)) then 1 else 0)"
  using assms unfolding run_def
proof (induction acts arbitrary: p)
  case Nil
  then show ?case by simp
next
  case (Cons a acts)
  show ?case
    using Cons.IH [OF step_awaited [OF Cons.prems]] by simp
qed

text \<open>
  On the page a second send before the answer leaves the hooks as the first send made
  them: the render after the first send rebuilds the handler with \<open>isLoading\<close> set.
\<close>

lemma second_send_on_page:
  assumes "handleSendMessage (memo p) (hooks p) arg now date = (s1, Some ts)"
  shows "hooks (step (step p (Send arg now date)) (Send arg' now' date')) = s1"
proof -
  define q where "q = step p (Send arg now date)"
  have l: "isLoading s1"
    using handleSendMessage_accepted(4) [OF assms] by simp
  have h: "hooks q = s1"
    using assms by (simp add: q_def hooks_render)
  have "bound_isLoading (memo q)"
    using assms l by (simp add: q_def render_memo)
  then have "handleSendMessage (memo q) (hooks q) arg' now' date' = (hooks q, None)"
    by (simp add: handleSendMessage_rejected)
  then show ?thesis
    unfolding q_def [symmetric] using h by (simp add: hooks_render)
qed

section \<open>The commit in VoiceInput\<close>

text \<open>
  \<^verbatim>\<open>VoiceInput\<close> commits like the chat page: a result event with a finalized text writes
  it to \<open>inputValue\<close> through \<^verbatim>\<open>onTranscript\<close>, any other leaves \<open>inputValue\<close> alone.
\<close>

lemma transcriptLoop_final:
  "snd (transcriptLoop rs (interim, final)) = finalLoop rs final"
  by (induction rs arbitrary: interim final) simp_all

lemma voiceInput_onresult_inputValue:
  "inputValue (voiceInput_onresult e s) = (if finals e \<noteq> [] then finals e else inputValue s)"
proof -
  obtain i f where t: "transcriptLoop (drop (resultIndex e) (results e)) ([], []) = (i, f)"
    by (cases "transcriptLoop (drop (resultIndex e) (results e)) ([], [])")
  have "f = finals e"
    using transcriptLoop_final [of "drop (resultIndex e) (results e)" "[]" "[]"] t
    by (simp only: finals_def finalLoop_concat append_Nil snd_conv)
  with t show ?thesis
    by (simp add: voiceInput_onresult_def Let_def)
qed

end
